theory Spec2Isabelle
  imports Main
begin

section \<open>The startup and shutdown sequence of PulseView (main.cpp)\<close>

text \<open>
  The file main.cpp holds three functions: \<open>signal_handler\<close>, \<open>usage\<close> and
  \<open>main\<close>. Everything they call lives in libraries (Qt, libsigrok, libsigrokdecode,
  the C library) or in other translation units, so the embedding records every call
  to a collaborator as an \<^emph>\<open>event\<close> and a run of \<open>main\<close> as the list of events in
  program order together with the way the process ends. Results of collaborators
  that steer the control flow (the return value of \<open>srd_init\<close>, of
  \<open>prepare_signals\<close>, of \<open>exec\<close>, a thrown exception) are inputs of the model.
\<close>

subsection \<open>Data\<close>

text \<open>\<open>shared_ptr<sigrok::Context> context\<close>: empty until \<open>Context::create()\<close> is assigned.\<close>

datatype context_ptr = Null_context | Context_handle

datatype signal = SIGSEGV | SIGABRT

text \<open>The second argument of \<open>::signal\<close>: \<open>SIG_DFL\<close> or \<open>&signal_handler\<close>.\<close>

datatype disposition = SIG_DFL | Signal_handler

text \<open>
  A thrown object either derives from \<open>std::exception\<close> (and carries \<open>what()\<close>) or
  does not; \<open>catch (exception& e)\<close> takes the first kind only.
\<close>

datatype exn = Std_exception string | Other_exception

datatype event =
    Application_ctor
  | Srau_init_environment
  | Android_install_callbacks
  | Asset_reader_ctor
  | Stdout string
  | Stderr string
  | QDebug string
  | QWarning string
  | Set_log_level context_ptr int
  | Srd_log_loglevel_set int
  | QSettings_debug
  | Global_settings_ctor
  | Set_defaults_where_needed
  | Logging_init
  | Context_create
  | Session_sr_context_assign
  | Signal_call signal disposition
  | Safe_dump_to string
  | Raise_call signal
  | Set_resource_reader
  | Srd_init
  | Srd_decoder_load_all
  | Device_manager_ctor context_ptr string bool
  | Main_window_ctor
  | Show
  | Restore_sessions
  | Add_session_with_file string string
  | Add_default_session
  | Prepare_signals
  | Signal_handler_ctor
  | Connect_int_received
  | Connect_term_received
  | Exec
  | Srd_exit

text \<open>How the process ends: \<open>main\<close> returns a code, or an exception leaves \<open>main\<close>.\<close>

datatype outcome = Returned int | Uncaught exn

text \<open>
  The preprocessor symbols and the constants of config.h. \<open>ENABLE_STACKTRACE\<close> is
  tested both with \<open>#if\<close> (lines 67 and 212) and with \<open>#ifdef\<close>/\<open>#ifndef\<close> (lines 36,
  238 and 271), so the model keeps its value: \<open>None\<close> is "not defined".
\<close>

record build =
  enable_decode :: bool
  enable_signals :: bool
  enable_stacktrace :: "int option"
  android :: bool
  pv_bin_name :: string
  pv_title :: string
  pv_version_string :: string

definition stacktrace_defined :: "build \<Rightarrow> bool" where
  "stacktrace_defined b \<longleftrightarrow> enable_stacktrace b \<noteq> None"

definition stacktrace_nonzero :: "build \<Rightarrow> bool" where
  "stacktrace_nonzero b \<longleftrightarrow> (case enable_stacktrace b of None \<Rightarrow> False | Some v \<Rightarrow> v \<noteq> 0)"

text \<open>
  What the collaborators answer during one run. \<open>fault\<close> says which call throws;
  \<open>temp_path\<close> is \<open>QStandardPaths::standardLocations(TempLocation).at(0)\<close>.
\<close>

record env =
  srd_init_ok :: bool
  prepare_signals_ok :: bool
  exec_result :: int
  temp_path :: string
  fault :: "event \<Rightarrow> exn option"

text \<open>The local variables of \<open>main\<close> (lines 101 to 106).\<close>

record locals =
  ret :: int
  context' :: context_ptr
  open_file :: string
  open_file_format :: string
  driver :: string
  restore_sessions :: bool
  do_scan :: bool
  do_logging :: bool

definition initial_locals :: locals where
  "initial_locals =
     \<lparr>ret = 0, context' = Null_context, open_file = [], open_file_format = [], driver = [],
      restore_sessions = True, do_scan = True, do_logging = True\<rparr>"

subsection \<open>signal_handler (lines 70 to 75)\<close>

definition signal_handler :: "string \<Rightarrow> signal \<Rightarrow> event list" where
  "signal_handler stacktrace_filename signum =
     [Signal_call signum SIG_DFL,
      Safe_dump_to stacktrace_filename,
      Raise_call SIGABRT]"

subsection \<open>usage (lines 78 to 97)\<close>

definition newline :: char where
  "newline = CHR 0x0A"

definition usage_lines :: "build \<Rightarrow> string list" where
  "usage_lines b =
     [''Usage:'',
      ''  '' @ pv_bin_name b @ '' [OPTIONS] [FILE]'',
      '''',
      ''Help Options:'',
      ''  -h, -?, --help                  Show help option'',
      '''',
      ''Application Options:'',
      ''  -V, --version                   Show release version'',
      ''  -l, --loglevel                  Set libsigrok/libsigrokdecode loglevel'',
      ''  -d, --driver                    Specify the device driver to use'',
      ''  -D, --no-scan                   Don'' @ [CHR 0x27] @ ''t auto-scan for devices, use -d spec only'',
      ''  -i, --input-file                Load input from file'',
      ''  -I, --input-format              Input format'',
      ''  -c, --clean                     Don'' @ [CHR 0x27] @ ''t restore previous sessions on startup'',
      ''  -s, --log-to-stdout             Don'' @ [CHR 0x27] @ ''t use logging, output to stdout instead'',
      '''']"

definition usage :: "build \<Rightarrow> event list" where
  "usage b = [Stdout (concat (map (\<lambda>l. l @ [newline]) (usage_lines b)))]"

subsection \<open>atoi\<close>

text \<open>
  \<open>atoi\<close> belongs to the C library, and \<open>const int loglevel = atoi(optarg)\<close> stores
  its result in a C \<open>int\<close>. glibc defines \<open>atoi(nptr)\<close> as
  \<open>(int) strtol(nptr, NULL, 10)\<close>. \<open>strtol\<close> skips white space, reads an optional
  sign and then the longest run of decimal digits (no digits give 0), and
  saturates at \<open>LONG_MIN\<close> and \<open>LONG_MAX\<close>; \<open>long\<close> has 64 bits on the LP64
  platforms. The conversion to \<open>int\<close> keeps the low 32 bits, read in two's
  complement. So \<open>atoi("4294967299")\<close> is 3 and \<open>atoi("-4294967295")\<close> is 1.
\<close>

definition isspace :: "char \<Rightarrow> bool" where
  "isspace c \<longleftrightarrow> c \<in> {CHR '' '', CHR 0x09, CHR 0x0A, CHR 0x0B, CHR 0x0C, CHR 0x0D}"

definition isdigit :: "char \<Rightarrow> bool" where
  "isdigit c \<longleftrightarrow> 48 \<le> (of_char c :: nat) \<and> (of_char c :: nat) \<le> 57"

definition digit_value :: "char \<Rightarrow> int" where
  "digit_value c = int (of_char c) - 48"

definition long_max :: int where
  "long_max = 9223372036854775807"

text \<open>
  The magnitude of the digit run, accumulated digit by digit and saturating at
  \<open>LONG_MAX + 1\<close>, the magnitude of \<open>LONG_MIN\<close>.
\<close>

fun digits_value :: "int \<Rightarrow> string \<Rightarrow> int" where
  "digits_value acc [] = acc"
| "digits_value acc (c # cs) =
     (if isdigit c then digits_value (min (10 * acc + digit_value c) (long_max + 1)) cs
      else acc)"

definition strtol :: "string \<Rightarrow> int" where
  "strtol s =
     (case dropWhile isspace s of
        [] \<Rightarrow> 0
      | c # cs \<Rightarrow>
          if c = CHR ''-'' then - digits_value 0 cs
          else if c = CHR ''+'' then min (digits_value 0 cs) long_max
          else min (digits_value 0 (c # cs)) long_max)"

text \<open>The conversion of a \<open>long\<close> to a 32-bit \<open>int\<close>.\<close>

definition int_of_long :: "int \<Rightarrow> int" where
  "int_of_long v = (v + 2147483648) mod 4294967296 - 2147483648"

definition atoi :: "string \<Rightarrow> int" where
  "atoi s = int_of_long (strtol s)"

subsection \<open>main: the argument loop (lines 117 to 191)\<close>

text \<open>
  \<open>getopt_long\<close> is the C library's. The model takes what it returns, call after
  call, as a list of pairs \<open>(c, optarg)\<close>; the end of the list is the return value
  \<open>-1\<close>. \<open>optarg\<close> is meaningful for the options declared with an argument
  (\<open>l\<close>, \<open>d\<close>, \<open>i\<close>, \<open>I\<close>). The arguments left at \<open>argv[optind]\<close> and after are the
  list \<open>positional\<close> of \<open>main\<close> below.
\<close>

datatype parse_result = Exit_with int | Parsed locals

text \<open>
  The body of \<open>case 'l'\<close> once \<open>loglevel\<close> is known (lines 149 to 164). The call
  \<open>context->set_log_level\<close> of line 153 is recorded with the state of the pointer
  it goes through, and the model follows the control flow of the source from
  there: what the library does with the call is not part of main.cpp.
\<close>

definition case_l :: "build \<Rightarrow> locals \<Rightarrow> int \<Rightarrow> event list" where
  "case_l b st loglevel =
     (if loglevel < 0 \<or> loglevel > 5 then [QDebug ''ERROR: invalid log level spec.'']
      else [Set_log_level (context' st) loglevel]
           @ (if enable_decode b then [Srd_log_loglevel_set loglevel] else [])
           @ (if loglevel \<ge> 5 then [QSettings_debug] else []))"

text \<open>The \<open>switch (c)\<close>; a value with no \<open>case\<close> does nothing.\<close>

definition switch_c :: "build \<Rightarrow> locals \<Rightarrow> char \<Rightarrow> string \<Rightarrow> event list \<times> parse_result" where
  "switch_c b st c optarg =
     (if c = CHR ''h'' \<or> c = CHR ''?'' then (usage b, Exit_with 0)
      else if c = CHR ''V'' then
        ([Stdout (pv_title b @ '' '' @ pv_version_string b @ [newline])], Exit_with 0)
      else if c = CHR ''l'' then (case_l b st (atoi optarg), Parsed st)
      else if c = CHR ''d'' then ([], Parsed (st\<lparr>driver := optarg\<rparr>))
      else if c = CHR ''D'' then ([], Parsed (st\<lparr>do_scan := False\<rparr>))
      else if c = CHR ''i'' then ([], Parsed (st\<lparr>open_file := optarg\<rparr>))
      else if c = CHR ''I'' then ([], Parsed (st\<lparr>open_file_format := optarg\<rparr>))
      else if c = CHR ''c'' then ([], Parsed (st\<lparr>restore_sessions := False\<rparr>))
      else if c = CHR ''s'' then ([], Parsed (st\<lparr>do_logging := False\<rparr>))
      else ([], Parsed st))"

fun parse_arguments :: "build \<Rightarrow> (char \<times> string) list \<Rightarrow> locals \<Rightarrow> event list \<times> parse_result" where
  "parse_arguments b [] st = ([], Parsed st)"
| "parse_arguments b ((c, optarg) # rest) st =
     (case switch_c b st c optarg of
        (evs, Exit_with code) \<Rightarrow> (evs, Exit_with code)
      | (evs, Parsed st') \<Rightarrow>
          (case parse_arguments b rest st' of (evs', r) \<Rightarrow> (evs @ evs', r)))"

subsection \<open>main: the guarded block (lines 238 to 275)\<close>

text \<open>
  The calls of the block in program order. Which calls are made depends only on
  the locals, the build and the answer of \<open>prepare_signals\<close>.
\<close>

definition window_calls :: "build \<Rightarrow> env \<Rightarrow> locals \<Rightarrow> event list" where
  "window_calls b e st =
     [Device_manager_ctor (context' st) (driver st) (do_scan st), Main_window_ctor, Show]
     @ (if restore_sessions st then [Restore_sessions] else [])
     @ (if open_file st \<noteq> [] then [Add_session_with_file (open_file st) (open_file_format st)]
        else [Add_default_session])
     @ (if enable_signals b then
          Prepare_signals #
          (if prepare_signals_ok e
           then [Signal_handler_ctor, Connect_int_received, Connect_term_received]
           else [QWarning ''Could not prepare signal handler.''])
        else [])
     @ [Exec]"

text \<open>Make the calls one after the other until one throws.\<close>

fun run_calls :: "(event \<Rightarrow> exn option) \<Rightarrow> event list \<Rightarrow> event list \<times> exn option" where
  "run_calls f [] = ([], None)"
| "run_calls f (c # cs) =
     (case f c of
        Some x \<Rightarrow> ([c], Some x)
      | None \<Rightarrow> (case run_calls f cs of (t, r) \<Rightarrow> (c # t, r)))"

text \<open>
  The block with its \<open>try\<close>/\<open>catch\<close>, which exists when \<open>ENABLE_STACKTRACE\<close> is not
  defined. \<open>Inl\<close>: the exception leaves \<open>main\<close>; \<open>Inr\<close>: control reaches line 277.
\<close>

definition guarded_block :: "build \<Rightarrow> env \<Rightarrow> locals \<Rightarrow> event list \<times> (exn + locals)" where
  "guarded_block b e st =
     (case run_calls (fault e) (window_calls b e st) of
        (t, None) \<Rightarrow> (t, Inr (st\<lparr>ret := exec_result e\<rparr>))
      | (t, Some x) \<Rightarrow>
          if stacktrace_defined b then (t, Inl x)
          else (case x of
                  Std_exception what \<Rightarrow> (t @ [QDebug (''Exception: '' @ what)], Inr st)
                | Other_exception \<Rightarrow> (t, Inl x)))"

subsection \<open>main: the do-while block (lines 225 to 282)\<close>

definition decode_init :: "build \<Rightarrow> event list" where
  "decode_init b = (if enable_decode b then [Srd_init, Srd_decoder_load_all] else [])"

definition do_block :: "build \<Rightarrow> env \<Rightarrow> locals \<Rightarrow> event list \<times> outcome" where
  "do_block b e st =
     (if enable_decode b \<and> \<not> srd_init_ok e then
        ([Srd_init, QDebug ''ERROR: libsigrokdecode init failed.''], Returned (ret st))
      else
        (case guarded_block b e st of
           (t, Inl x) \<Rightarrow> (decode_init b @ t, Uncaught x)
         | (t, Inr st') \<Rightarrow>
             (decode_init b @ t @ (if enable_decode b then [Srd_exit] else []),
              Returned (ret st'))))"

subsection \<open>main: lines 201 to 224\<close>

definition stacktrace_filename :: "env \<Rightarrow> string" where
  "stacktrace_filename e = temp_path e @ ''/pv_stacktrace.dmp''"

text \<open>Lines 201 to 209, up to and including the call of \<open>Context::create()\<close>.\<close>

definition before_context :: "locals \<Rightarrow> event list" where
  "before_context st =
     [Global_settings_ctor, Set_defaults_where_needed]
     @ (if do_logging st then [Logging_init] else [])
     @ [Context_create]"

text \<open>Lines 210 to 224.\<close>

definition after_context :: "build \<Rightarrow> env \<Rightarrow> event list" where
  "after_context b e =
     [Session_sr_context_assign]
     @ (if stacktrace_nonzero b then
          [QDebug (''Stack trace file is '' @ stacktrace_filename e),
           Signal_call SIGSEGV Signal_handler, Signal_call SIGABRT Signal_handler]
        else [])
     @ (if android b then [Set_resource_reader] else [])"

text \<open>
  \<open>Context::create()\<close> is called outside the \<open>try\<close> block: an exception it throws
  leaves \<open>main\<close>.
\<close>

definition startup :: "build \<Rightarrow> env \<Rightarrow> locals \<Rightarrow> event list \<times> outcome" where
  "startup b e st =
     (case fault e Context_create of
        Some x \<Rightarrow> (before_context st, Uncaught x)
      | None \<Rightarrow>
          (case do_block b e (st\<lparr>context' := Context_handle\<rparr>) of
             (t, out) \<Rightarrow> (before_context st @ after_context b e @ t, out)))"

subsection \<open>main: lines 108 to 114 and 193 to 199, and the whole\<close>

definition prologue :: "build \<Rightarrow> event list" where
  "prologue b =
     Application_ctor #
     (if android b then [Srau_init_environment, Android_install_callbacks, Asset_reader_ctor]
      else [])"

text \<open>
  \<open>argc - optind\<close> is the number of positional arguments; when it is 1,
  \<open>argv[argc - 1]\<close> is that argument.
\<close>

definition parse_command_line ::
    "build \<Rightarrow> (char \<times> string) list \<Rightarrow> string list \<Rightarrow> event list \<times> parse_result" where
  "parse_command_line b opts positional =
     (case parse_arguments b opts initial_locals of
        (t, Exit_with code) \<Rightarrow> (t, Exit_with code)
      | (t, Parsed st) \<Rightarrow>
          if int (length positional) > 1 then
            (t @ [Stderr (''Only one file can be opened.'' @ [newline])], Exit_with 1)
          else
            (t, Parsed (if int (length positional) = 1
                        then st\<lparr>open_file := last positional\<rparr> else st)))"

definition main :: "build \<Rightarrow> env \<Rightarrow> (char \<times> string) list \<Rightarrow> string list \<Rightarrow> event list \<times> outcome" where
  "main b e opts positional =
     (case parse_command_line b opts positional of
        (t, Exit_with code) \<Rightarrow> (prologue b @ t, Returned code)
      | (t, Parsed st) \<Rightarrow>
          (case startup b e st of (t', out) \<Rightarrow> (prologue b @ t @ t', out)))"

text \<open>
  What \<open>main\<close> does once the argument loop has ended, as a function of how it
  ended: \<open>main\<close> is the prologue, the loop and this.
\<close>

definition after_loop :: "build \<Rightarrow> env \<Rightarrow> string list \<Rightarrow> parse_result \<Rightarrow> event list \<times> outcome" where
  "after_loop b e positional r =
     (case r of
        Exit_with code \<Rightarrow> ([], Returned code)
      | Parsed st \<Rightarrow>
          if int (length positional) > 1 then
            ([Stderr (''Only one file can be opened.'' @ [newline])], Returned 1)
          else
            startup b e
              (if int (length positional) = 1 then st\<lparr>open_file := last positional\<rparr> else st))"

subsection \<open>Vocabulary of the statements\<close>

text \<open>The options whose \<open>case\<close> returns from \<open>main\<close>: help (\<open>h\<close>, \<open>?\<close>) and version.\<close>

definition terminal :: "char \<times> string \<Rightarrow> bool" where
  "terminal opt \<longleftrightarrow> fst opt = CHR ''h'' \<or> fst opt = CHR ''?'' \<or> fst opt = CHR ''V''"

definition parses_through :: "(char \<times> string) list \<Rightarrow> bool" where
  "parses_through opts \<longleftrightarrow> list_all (\<lambda>opt. \<not> terminal opt) opts"

text \<open>
  The calls made from line 201 on: everything \<open>main\<close> brings up after the
  argument loop. The calls of the loop itself (output, the two log-level setters,
  the \<open>QSettings\<close> object built for the debug line at level 5) and the
  \<open>Application\<close> object are not among them.
\<close>

fun starts_subsystem :: "event \<Rightarrow> bool" where
  "starts_subsystem Application_ctor = False"
| "starts_subsystem Srau_init_environment = False"
| "starts_subsystem Android_install_callbacks = False"
| "starts_subsystem Asset_reader_ctor = False"
| "starts_subsystem (Stdout s) = False"
| "starts_subsystem (Stderr s) = False"
| "starts_subsystem (QDebug s) = False"
| "starts_subsystem (QWarning s) = False"
| "starts_subsystem (Set_log_level h v) = False"
| "starts_subsystem (Srd_log_loglevel_set v) = False"
| "starts_subsystem QSettings_debug = False"
| "starts_subsystem (Safe_dump_to s) = False"
| "starts_subsystem (Raise_call s) = False"
| "starts_subsystem x = True"

text \<open>The device manager, the main window and the event loop (lines 243 to 247 and 269).\<close>

fun runs_application :: "event \<Rightarrow> bool" where
  "runs_application (Device_manager_ctor h d s) = True"
| "runs_application Main_window_ctor = True"
| "runs_application Show = True"
| "runs_application Exec = True"
| "runs_application x = False"

text \<open>The output of \<open>case 'V'\<close> (line 143).\<close>

definition version_output :: "build \<Rightarrow> event list" where
  "version_output b = [Stdout (pv_title b @ '' '' @ pv_version_string b @ [newline])]"

text \<open>The warning of line 150 and the diagnostic of line 194.\<close>

definition invalid_log_level :: event where
  "invalid_log_level = QDebug ''ERROR: invalid log level spec.''"

definition only_one_file :: event where
  "only_one_file = Stderr (''Only one file can be opened.'' @ [newline])"

text \<open>
  Two readings of "numeric" for the argument of \<open>-l\<close>. \<open>decimal_number\<close>: the
  whole string is an optional sign followed by one or more digits.
  \<open>leading_number\<close>: after white space and an optional sign the string goes on
  with a digit, which is when \<open>atoi\<close> has something to convert.
\<close>

definition decimal_number :: "string \<Rightarrow> bool" where
  "decimal_number s =
     (case s of
        [] \<Rightarrow> False
      | c # cs \<Rightarrow>
          if c = CHR ''-'' \<or> c = CHR ''+'' then cs \<noteq> [] \<and> list_all isdigit cs
          else list_all isdigit (c # cs))"

definition leading_number :: "string \<Rightarrow> bool" where
  "leading_number s =
     (case dropWhile isspace s of
        [] \<Rightarrow> False
      | c # cs \<Rightarrow>
          if c = CHR ''-'' \<or> c = CHR ''+'' then (case cs of [] \<Rightarrow> False | d # ds \<Rightarrow> isdigit d)
          else isdigit c)"

subsection \<open>Concrete builds and runs\<close>

text \<open>A desktop build with the decoders and the signal handler, without crash dumps.\<close>

definition desktop_build :: build where
  "desktop_build =
     \<lparr>enable_decode = True, enable_signals = True, enable_stacktrace = None, android = False,
      pv_bin_name = ''pulseview'', pv_title = ''PulseView'', pv_version_string = ''0.5.0''\<rparr>"

text \<open>Every collaborator succeeds and the event loop returns 0.\<close>

definition calm_env :: env where
  "calm_env =
     \<lparr>srd_init_ok = True, prepare_signals_ok = True, exec_result = 0, temp_path = ''/tmp'',
      fault = (\<lambda>c. None)\<rparr>"

text \<open>\<open>srd_init\<close> does not return \<open>SRD_OK\<close>; the event loop would return 3.\<close>

definition srd_failing_env :: env where
  "srd_failing_env =
     \<lparr>srd_init_ok = False, prepare_signals_ok = True, exec_result = 3, temp_path = ''/tmp'',
      fault = (\<lambda>c. None)\<rparr>"

text \<open>The event loop throws a \<open>std::exception\<close>.\<close>

definition exec_throwing_env :: env where
  "exec_throwing_env =
     \<lparr>srd_init_ok = True, prepare_signals_ok = True, exec_result = 0, temp_path = ''/tmp'',
      fault = (\<lambda>c. if c = Exec then Some (Std_exception ''boom'') else None)\<rparr>"

section \<open>The argument loop\<close>

lemma switch_c_through:
  "\<not> terminal (c, a) \<Longrightarrow>
     \<exists>evs st'. switch_c b st c a = (evs, Parsed st') \<and> ret st' = ret st \<and> context' st' = context' st"
  by (simp add: switch_c_def terminal_def)

lemma switch_c_terminal:
  "terminal (c, a) \<Longrightarrow>
     switch_c b st c a =
       ((if c = CHR ''V'' then [Stdout (pv_title b @ '' '' @ pv_version_string b @ [newline])]
         else usage b), Exit_with 0)"
  by (auto simp add: switch_c_def terminal_def)

lemma switch_c_events:
  "x \<in> set (fst (switch_c b st c a)) \<Longrightarrow> \<not> starts_subsystem x"
  by (auto simp add: switch_c_def case_l_def usage_def split: if_splits)

lemma parse_arguments_events:
  "x \<in> set (fst (parse_arguments b opts st)) \<Longrightarrow> \<not> starts_subsystem x"
proof (induction opts arbitrary: st)
  case Nil
  then show ?case by simp
next
  case (Cons opt opts)
  obtain c a where opt: "opt = (c, a)" by (cases opt)
  obtain evs r where sw: "switch_c b st c a = (evs, r)" by (cases "switch_c b st c a")
  have evs: "\<And>y. y \<in> set evs \<Longrightarrow> \<not> starts_subsystem y"
    using switch_c_events [of _ b st c a] sw by simp
  show ?case
  proof (cases r)
    case (Exit_with code)
    with Cons.prems opt sw evs show ?thesis by auto
  next
    case (Parsed st')
    with Cons.prems opt sw evs Cons.IH [of st'] show ?thesis
      by (auto split: prod.splits)
  qed
qed

text \<open>The loop over a list cut in two: the second part runs from where the first ended.\<close>

lemma parse_arguments_append:
  "parse_arguments b (xs @ ys) st =
     (case parse_arguments b xs st of
        (t, Exit_with code) \<Rightarrow> (t, Exit_with code)
      | (t, Parsed st') \<Rightarrow>
          (t @ fst (parse_arguments b ys st'), snd (parse_arguments b ys st')))"
proof (induction xs arbitrary: st)
  case Nil
  then show ?case by simp
next
  case (Cons opt xs)
  obtain c a where opt: "opt = (c, a)" by (cases opt)
  show ?case
    by (simp add: opt Cons.IH split: prod.splits parse_result.splits)
qed

text \<open>
  Without a help or version option the loop runs to the end of the options, and it
  never assigns \<open>ret\<close> or \<open>context\<close>.
\<close>

lemma parse_arguments_through:
  "parses_through opts \<Longrightarrow>
     \<exists>t st'. parse_arguments b opts st = (t, Parsed st') \<and> ret st' = ret st \<and> context' st' = context' st"
proof (induction opts arbitrary: st)
  case Nil
  then show ?case by simp
next
  case (Cons opt opts)
  obtain c a where opt: "opt = (c, a)" by (cases opt)
  from Cons.prems opt have nt: "\<not> terminal (c, a)" and rest: "parses_through opts"
    by (simp_all add: parses_through_def)
  from switch_c_through [OF nt, of b st] obtain evs st1
    where sw: "switch_c b st c a = (evs, Parsed st1)" "ret st1 = ret st" "context' st1 = context' st"
    by blast
  from Cons.IH [OF rest, of st1] obtain t st2
    where pa: "parse_arguments b opts st1 = (t, Parsed st2)" "ret st2 = ret st1" "context' st2 = context' st1"
    by blast
  show ?case using opt sw pa by simp
qed

text \<open>The loop never assigns \<open>ret\<close> or \<open>context\<close>, also when it is cut short.\<close>

lemma parse_arguments_keeps:
  "parse_arguments b opts st = (t, Parsed st') \<Longrightarrow> ret st' = ret st \<and> context' st' = context' st"
proof (induction opts arbitrary: st t)
  case Nil
  then show ?case by simp
next
  case (Cons opt opts)
  obtain c a where opt: "opt = (c, a)" by (cases opt)
  obtain evs r where sw: "switch_c b st c a = (evs, r)" by (cases "switch_c b st c a")
  show ?case
  proof (cases r)
    case (Exit_with code)
    with Cons.prems opt sw show ?thesis by simp
  next
    case (Parsed st1)
    have k: "ret st1 = ret st \<and> context' st1 = context' st"
      using sw Parsed by (auto simp add: switch_c_def split: if_splits)
    obtain t2 where "parse_arguments b opts st1 = (t2, Parsed st')"
      using Cons.prems opt sw Parsed by (auto split: prod.splits)
    from Cons.IH [OF this] k show ?thesis by simp
  qed
qed

text \<open>Every call of \<open>set_log_level\<close> made by the loop goes through the handle the loop started with.\<close>

lemma parse_arguments_log_level:
  "Set_log_level h v \<in> set (fst (parse_arguments b opts st)) \<Longrightarrow> h = context' st"
proof (induction opts arbitrary: st)
  case Nil
  then show ?case by simp
next
  case (Cons opt opts)
  obtain c a where opt: "opt = (c, a)" by (cases opt)
  obtain evs r where sw: "switch_c b st c a = (evs, r)" by (cases "switch_c b st c a")
  have here: "Set_log_level h v \<in> set evs \<Longrightarrow> h = context' st"
    using sw by (auto simp add: switch_c_def case_l_def usage_def split: if_splits)
  show ?case
  proof (cases r)
    case (Exit_with code)
    with Cons.prems opt sw here show ?thesis by simp
  next
    case (Parsed st1)
    have k: "context' st1 = context' st"
      using sw Parsed by (auto simp add: switch_c_def split: if_splits)
    from Cons.prems opt sw Parsed
    have "Set_log_level h v \<in> set evs \<or> Set_log_level h v \<in> set (fst (parse_arguments b opts st1))"
      by (auto split: prod.splits)
    with here Cons.IH [of st1] k show ?thesis by auto
  qed
qed

section \<open>The run as a whole\<close>

lemma main_after_loop:
  "main b e opts positional =
     (prologue b @ fst (parse_arguments b opts initial_locals)
        @ fst (after_loop b e positional (snd (parse_arguments b opts initial_locals))),
      snd (after_loop b e positional (snd (parse_arguments b opts initial_locals))))"
  by (simp add: main_def parse_command_line_def after_loop_def
      split: prod.splits parse_result.splits)

lemma prologue_events: "x \<in> set (prologue b) \<Longrightarrow> \<not> starts_subsystem x"
  by (auto simp add: prologue_def split: if_splits)

section \<open>The guarded block and the decoder library\<close>

lemma run_calls_prefix: "\<exists>rest. cs = fst (run_calls f cs) @ rest"
  by (induction cs) (auto split: option.splits prod.splits)

lemma run_calls_subset: "set (fst (run_calls f cs)) \<subseteq> set cs"
proof -
  obtain rest where "cs = fst (run_calls f cs) @ rest" using run_calls_prefix by blast
  then have "set cs = set (fst (run_calls f cs)) \<union> set rest" by (metis set_append)
  then show ?thesis by blast
qed

lemma run_calls_first:
  "list_all (\<lambda>c. f c = None) xs \<Longrightarrow> \<exists>t. fst (run_calls f (xs @ y # ys)) = xs @ y # t"
  by (induction xs) (auto split: option.splits prod.splits)

lemma window_calls_no_decoder:
  "Srd_exit \<notin> set (window_calls b e st)" "Srd_init \<notin> set (window_calls b e st)"
  "Srd_decoder_load_all \<notin> set (window_calls b e st)"
  by (simp_all add: window_calls_def)

lemma guarded_block_events:
  "x \<in> set (fst (guarded_block b e st)) \<Longrightarrow>
     x \<in> set (window_calls b e st) \<or> (\<exists>w. x = QDebug (''Exception: '' @ w))"
  using run_calls_subset [of "fault e" "window_calls b e st"]
  by (auto simp add: guarded_block_def split: prod.splits option.splits if_splits exn.splits)

lemma guarded_block_no_decoder:
  "Srd_exit \<notin> set (fst (guarded_block b e st))" "Srd_init \<notin> set (fst (guarded_block b e st))"
  "Srd_decoder_load_all \<notin> set (fst (guarded_block b e st))"
  using guarded_block_events [of _ b e st] window_calls_no_decoder [of b e st] by auto

lemma do_block_events:
  "x \<in> set (fst (do_block b e st)) \<Longrightarrow>
     x \<in> set (window_calls b e st) \<or> x = Srd_init \<or> x = Srd_decoder_load_all \<or> x = Srd_exit
     \<or> (\<exists>w. x = QDebug w)"
  using guarded_block_events [of x b e st]
  by (auto simp add: do_block_def decode_init_def split: prod.splits sum.splits if_splits)

lemma do_block_teardown:
  "count_list (fst (do_block b e st)) Srd_exit =
     (if enable_decode b \<and> srd_init_ok e \<and> (\<exists>code. snd (do_block b e st) = Returned code)
      then 1 else 0)"
  using guarded_block_no_decoder(1) [of b e st]
  by (auto simp add: do_block_def decode_init_def count_list_append count_list_0_iff
      split: prod.splits sum.splits)

lemma do_block_last:
  "enable_decode b \<Longrightarrow> srd_init_ok e \<Longrightarrow> snd (do_block b e st) = Returned code \<Longrightarrow>
     last (fst (do_block b e st)) = Srd_exit"
  by (auto simp add: do_block_def split: prod.splits sum.splits)

lemma do_block_init: "Srd_init \<in> set (fst (do_block b e st)) \<longleftrightarrow> enable_decode b"
  using guarded_block_no_decoder(2) [of b e st]
  by (auto simp add: do_block_def decode_init_def split: prod.splits sum.splits)

lemma before_context_no_decoder:
  "Srd_exit \<notin> set (before_context st)" "Srd_init \<notin> set (before_context st)"
  by (simp_all add: before_context_def)

lemma after_context_no_decoder:
  "Srd_exit \<notin> set (after_context b e)" "Srd_init \<notin> set (after_context b e)"
  by (simp_all add: after_context_def)

lemma startup_events:
  "x \<in> set (fst (startup b e st)) \<Longrightarrow>
     x \<in> set (before_context st) \<or> x \<in> set (after_context b e)
     \<or> x \<in> set (window_calls b e (st\<lparr>context' := Context_handle\<rparr>))
     \<or> x = Srd_init \<or> x = Srd_decoder_load_all \<or> x = Srd_exit \<or> (\<exists>w. x = QDebug w)"
  using do_block_events [of x b e "st\<lparr>context' := Context_handle\<rparr>"]
  by (auto simp add: startup_def split: option.splits prod.splits)

lemma startup_teardown:
  "count_list (fst (startup b e st)) Srd_exit =
     (if enable_decode b \<and> srd_init_ok e \<and> (\<exists>code. snd (startup b e st) = Returned code)
      then 1 else 0)"
  using do_block_teardown [of b e "st\<lparr>context' := Context_handle\<rparr>"]
    before_context_no_decoder(1) [of st] after_context_no_decoder(1) [of b e]
  by (auto simp add: startup_def count_list_append count_list_0_iff
      split: prod.splits option.splits)

lemma startup_init:
  "Srd_init \<in> set (fst (startup b e st)) \<longleftrightarrow> enable_decode b \<and> fault e Context_create = None"
  using do_block_init [of b e "st\<lparr>context' := Context_handle\<rparr>"]
    before_context_no_decoder(2) [of st] after_context_no_decoder(2) [of b e]
  by (auto simp add: startup_def split: prod.splits option.splits)

text \<open>
  When the command line is parsed to its end, the run is the prologue, the events
  of the loop and \<open>startup\<close>; the loop made no call of line 201 or after and left
  \<open>ret\<close> at 0.
\<close>

lemma parse_command_line_Parsed:
  assumes "parse_command_line b opts positional = (t, Parsed st)"
  shows "main b e opts positional = (prologue b @ t @ fst (startup b e st), snd (startup b e st))"
    and "list_all (\<lambda>x. \<not> starts_subsystem x) t"
    and "ret st = 0"
proof -
  show "main b e opts positional = (prologue b @ t @ fst (startup b e st), snd (startup b e st))"
    by (simp add: main_def assms split: prod.splits)
  obtain t0 r where p: "parse_arguments b opts initial_locals = (t0, r)"
    by (cases "parse_arguments b opts initial_locals")
  from assms p obtain st0 where r: "r = Parsed st0" and t: "t = t0" and s: "ret st = ret st0"
    by (cases r) (auto simp add: parse_command_line_def split: if_splits)
  from parse_arguments_events [of _ b opts initial_locals] p t
  show "list_all (\<lambda>x. \<not> starts_subsystem x) t" by (auto simp add: list_all_iff)
  from parse_arguments_keeps [of b opts initial_locals t0 st0] p r s
  show "ret st = 0" by (simp add: initial_locals_def)
qed

lemma after_loop_teardown:
  "count_list (fst (after_loop b e positional r)) Srd_exit =
     (if Srd_init \<in> set (fst (after_loop b e positional r)) \<and> srd_init_ok e
         \<and> (\<exists>code. snd (after_loop b e positional r) = Returned code)
      then 1 else 0)"
proof (cases r)
  case (Exit_with code)
  then show ?thesis by (simp add: after_loop_def)
next
  case (Parsed st)
  show ?thesis
  proof (cases "int (length positional) > 1")
    case True
    with Parsed show ?thesis by (simp add: after_loop_def)
  next
    case False
    define st' where "st' = (if int (length positional) = 1 then st\<lparr>open_file := last positional\<rparr> else st)"
    from Parsed False have al: "after_loop b e positional r = startup b e st'"
      by (simp add: after_loop_def st'_def)
    have "snd (startup b e st') = Returned code \<Longrightarrow> fault e Context_create = None" for code
      by (auto simp add: startup_def split: option.splits prod.splits)
    then show ?thesis
      unfolding al using startup_teardown [of b e st'] startup_init [of b e st'] by auto
  qed
qed

lemma after_loop_last:
  assumes "Srd_init \<in> set (fst (after_loop b e positional r))" "srd_init_ok e"
    "snd (after_loop b e positional r) = Returned code"
  shows "last (fst (after_loop b e positional r)) = Srd_exit"
proof (cases r)
  case (Exit_with c)
  with assms show ?thesis by (simp add: after_loop_def)
next
  case (Parsed st)
  show ?thesis
  proof (cases "int (length positional) > 1")
    case True
    with Parsed assms show ?thesis by (simp add: after_loop_def)
  next
    case False
    define st' where "st' = (if int (length positional) = 1 then st\<lparr>open_file := last positional\<rparr> else st)"
    from Parsed False have al: "after_loop b e positional r = startup b e st'"
      by (simp add: after_loop_def st'_def)
    from assms(1) have dec: "enable_decode b" and nf: "fault e Context_create = None"
      unfolding al using startup_init [of b e st'] by simp_all
    define st2 where "st2 = st'\<lparr>context' := Context_handle\<rparr>"
    from nf have su: "startup b e st' =
        (before_context st' @ after_context b e @ fst (do_block b e st2), snd (do_block b e st2))"
      by (simp add: startup_def st2_def split: prod.splits)
    from assms(3) have ret: "snd (do_block b e st2) = Returned code"
      unfolding al su by simp
    have ne: "fst (do_block b e st2) \<noteq> []"
      using dec assms(2) by (auto simp add: do_block_def decode_init_def split: prod.splits sum.splits)
    show ?thesis
      unfolding al su using do_block_last [OF dec assms(2) ret] ne by simp
  qed
qed

lemma loop_no_decoder:
  "Srd_exit \<notin> set (prologue b @ fst (parse_arguments b opts st))"
  "Srd_init \<notin> set (prologue b @ fst (parse_arguments b opts st))"
  by (auto dest: prologue_events parse_arguments_events)

text \<open>Concrete runs are computed by unfolding the definitions of the model.\<close>

lemmas model_defs =
  main_def parse_command_line_def initial_locals_def switch_c_def case_l_def atoi_def
  strtol_def int_of_long_def long_max_def isspace_def isdigit_def digit_value_def prologue_def startup_def before_context_def
  after_context_def do_block_def decode_init_def guarded_block_def window_calls_def
  stacktrace_nonzero_def stacktrace_defined_def stacktrace_filename_def usage_def
  desktop_build_def calm_env_def srd_failing_env_def exec_throwing_env_def

lemma caught_run:
  "main desktop_build exec_throwing_env [] [] =
     ([Application_ctor, Global_settings_ctor, Set_defaults_where_needed, Logging_init,
       Context_create, Session_sr_context_assign, Srd_init, Srd_decoder_load_all,
       Device_manager_ctor Context_handle [] True, Main_window_ctor, Show, Restore_sessions,
       Add_default_session, Prepare_signals, Signal_handler_ctor, Connect_int_received,
       Connect_term_received, Exec, QDebug ''Exception: boom'', Srd_exit],
      Returned 0)"
  by (simp add: model_defs)

text \<open>
  Claim C5. The decoder library is initialised in a run when \<open>srd_init\<close> is called
  and returns \<open>SRD_OK\<close>. In every such run that ends with \<open>main\<close> returning, which
  is the case when the event loop returns and when an exception thrown by the
  device manager, the main window or the event loop is caught at line 272,
  \<open>srd_exit\<close> is called exactly once, as the last call of the run. In every run in
  which the library is not initialised (the decoders are not compiled in, the run
  ends before line 229, or \<open>srd_init\<close> fails) \<open>srd_exit\<close> is never called.
\<close>

theorem decoder_teardown_symmetry:
  "(Srd_init \<in> set (fst (main b e opts positional)) \<and> srd_init_ok e
      \<and> (\<exists>code. snd (main b e opts positional) = Returned code)
     \<longrightarrow> count_list (fst (main b e opts positional)) Srd_exit = 1
         \<and> last (fst (main b e opts positional)) = Srd_exit)
   \<and> (\<not> (Srd_init \<in> set (fst (main b e opts positional)) \<and> srd_init_ok e)
     \<longrightarrow> count_list (fst (main b e opts positional)) Srd_exit = 0)"
proof -
  define r where "r = snd (parse_arguments b opts initial_locals)"
  define loop where "loop = prologue b @ fst (parse_arguments b opts initial_locals)"
  have m: "main b e opts positional =
      (loop @ fst (after_loop b e positional r), snd (after_loop b e positional r))"
    by (simp add: main_after_loop r_def loop_def)
  have l1: "Srd_exit \<notin> set loop" and l2: "Srd_init \<notin> set loop"
    unfolding loop_def by (rule loop_no_decoder)+
  have cnt: "count_list (fst (main b e opts positional)) Srd_exit =
      count_list (fst (after_loop b e positional r)) Srd_exit"
    using l1 by (simp add: m count_list_append count_list_0_iff)
  have ini: "Srd_init \<in> set (fst (main b e opts positional)) \<longleftrightarrow>
      Srd_init \<in> set (fst (after_loop b e positional r))"
    using l2 by (auto simp add: m)
  have out: "snd (main b e opts positional) = snd (after_loop b e positional r)"
    by (simp add: m)
  have lst: "fst (after_loop b e positional r) \<noteq> [] \<Longrightarrow>
      last (fst (main b e opts positional)) = last (fst (after_loop b e positional r))"
    by (simp add: m)
  show ?thesis
  proof (intro conjI impI)
    assume a: "Srd_init \<in> set (fst (main b e opts positional)) \<and> srd_init_ok e
      \<and> (\<exists>code. snd (main b e opts positional) = Returned code)"
    then show "count_list (fst (main b e opts positional)) Srd_exit = 1"
      using after_loop_teardown [of b e positional r] by (simp add: cnt ini out)
    from a obtain code where c: "snd (after_loop b e positional r) = Returned code"
      by (auto simp add: out)
    from a have i: "Srd_init \<in> set (fst (after_loop b e positional r))" by (simp add: ini)
    then have "fst (after_loop b e positional r) \<noteq> []" by auto
    then show "last (fst (main b e opts positional)) = Srd_exit"
      using after_loop_last [OF i _ c] a by (simp add: lst)
  next
    assume "\<not> (Srd_init \<in> set (fst (main b e opts positional)) \<and> srd_init_ok e)"
    then show "count_list (fst (main b e opts positional)) Srd_exit = 0"
      using after_loop_teardown [of b e positional r] by (auto simp add: cnt ini)
  qed
qed

text \<open>
  A run whose event loop throws a \<open>std::exception\<close>: it is caught, and the decoder
  library is torn down once. A run whose \<open>srd_init\<close> fails: no teardown.
\<close>

theorem decoder_teardown_symmetry_witness:
  "count_list (fst (main desktop_build exec_throwing_env [] [])) Srd_exit = 1
   \<and> last (fst (main desktop_build exec_throwing_env [] [])) = Srd_exit
   \<and> Srd_init \<in> set (fst (main desktop_build exec_throwing_env [] []))
   \<and> snd (main desktop_build exec_throwing_env [] []) = Returned 0
   \<and> count_list (fst (main desktop_build srd_failing_env [] [])) Srd_exit = 0"
proof -
  have i: "Srd_init \<in> set (fst (main desktop_build exec_throwing_env [] []))"
    and r: "snd (main desktop_build exec_throwing_env [] []) = Returned 0"
    by (simp_all add: caught_run)
  have ok: "srd_init_ok exec_throwing_env" and bad: "\<not> srd_init_ok srd_failing_env"
    by (simp_all add: exec_throwing_env_def srd_failing_env_def)
  from decoder_teardown_symmetry [of desktop_build exec_throwing_env "[]" "[]"] i r ok
  have one: "count_list (fst (main desktop_build exec_throwing_env [] [])) Srd_exit = 1
    \<and> last (fst (main desktop_build exec_throwing_env [] [])) = Srd_exit"
    by blast
  from decoder_teardown_symmetry [of desktop_build srd_failing_env "[]" "[]"] bad
  have zero: "count_list (fst (main desktop_build srd_failing_env [] [])) Srd_exit = 0"
    by blast
  from one zero i r show ?thesis by blast
qed

section \<open>Failure of the decoder library\<close>

lemma not_starts_calm:
  "\<not> starts_subsystem x \<Longrightarrow> \<not> runs_application x \<and> x \<noteq> Srd_decoder_load_all \<and> x \<noteq> Srd_exit \<and> x \<noteq> Srd_init"
  by (cases x) simp_all

lemma startup_init_failure:
  assumes "enable_decode b" "\<not> srd_init_ok e"
  shows "startup b e st =
     (case fault e Context_create of
        Some x \<Rightarrow> (before_context st, Uncaught x)
      | None \<Rightarrow>
          (before_context st @ after_context b e
           @ [Srd_init, QDebug ''ERROR: libsigrokdecode init failed.''], Returned (ret st)))"
  using assms by (simp add: startup_def do_block_def split: option.splits)

lemma context_events_calm:
  "x \<in> set (before_context st @ after_context b e) \<Longrightarrow>
     \<not> runs_application x \<and> x \<noteq> Srd_decoder_load_all \<and> x \<noteq> Srd_exit \<and> x \<noteq> Srd_init"
  by (auto simp add: before_context_def after_context_def split: if_splits)

lemma after_loop_init_failure:
  assumes "enable_decode b" "\<not> srd_init_ok e"
    and "case r of Exit_with code \<Rightarrow> True | Parsed st \<Rightarrow> ret st = 0"
  shows "list_all (\<lambda>x. \<not> runs_application x \<and> x \<noteq> Srd_decoder_load_all \<and> x \<noteq> Srd_exit)
           (fst (after_loop b e positional r))
     \<and> (Srd_init \<in> set (fst (after_loop b e positional r)) \<longrightarrow>
          snd (after_loop b e positional r) = Returned 0
          \<and> (\<exists>t. fst (after_loop b e positional r) =
                 t @ [Srd_init, QDebug ''ERROR: libsigrokdecode init failed.'']))"
proof (cases r)
  case (Exit_with code)
  then show ?thesis by (simp add: after_loop_def)
next
  case (Parsed st)
  show ?thesis
  proof (cases "int (length positional) > 1")
    case True
    with Parsed show ?thesis by (simp add: after_loop_def)
  next
    case False
    define st' where "st' = (if int (length positional) = 1 then st\<lparr>open_file := last positional\<rparr> else st)"
    from Parsed False have al: "after_loop b e positional r = startup b e st'"
      by (simp add: after_loop_def st'_def)
    from assms(3) Parsed have z: "ret st' = 0" by (simp add: st'_def)
    show ?thesis
    proof (cases "fault e Context_create")
      case None
      then have su: "startup b e st' =
          ((before_context st' @ after_context b e)
           @ [Srd_init, QDebug ''ERROR: libsigrokdecode init failed.''], Returned 0)"
        by (simp add: startup_init_failure [OF assms(1,2)] z)
      show ?thesis
        unfolding al su using context_events_calm [of _ st' b e]
        by (auto simp add: list_all_iff)
    next
      case (Some x)
      then have su: "startup b e st' = (before_context st' @ [], Uncaught x)"
        by (simp add: startup_init_failure [OF assms(1,2)])
      have "\<not> runs_application y \<and> y \<noteq> Srd_decoder_load_all \<and> y \<noteq> Srd_exit \<and> y \<noteq> Srd_init"
        if "y \<in> set (before_context st')" for y
        using that context_events_calm [of y st' b e] by simp
      then show ?thesis
        unfolding al su by (auto simp add: list_all_iff)
    qed
  qed
qed

text \<open>
  Claim C2, as the code has it. With the decoders compiled in and \<open>srd_init\<close>
  failing, no run constructs the device manager or the main window, shows it or
  enters the event loop, and none calls \<open>srd_decoder_load_all\<close> or \<open>srd_exit\<close>:
  the \<open>break\<close> of line 231 leaves the do-while block. A run that reaches
  \<open>srd_init\<close> logs "ERROR: libsigrokdecode init failed." as its last event and
  \<open>main\<close> returns 0, the value \<open>ret\<close> was initialised with.
\<close>

theorem decoder_init_failure:
  assumes "enable_decode b" "\<not> srd_init_ok e"
  shows "list_all (\<lambda>x. \<not> runs_application x \<and> x \<noteq> Srd_decoder_load_all \<and> x \<noteq> Srd_exit)
           (fst (main b e opts positional))
     \<and> (Srd_init \<in> set (fst (main b e opts positional)) \<longrightarrow>
          snd (main b e opts positional) = Returned 0
          \<and> (\<exists>t. fst (main b e opts positional) =
                 t @ [Srd_init, QDebug ''ERROR: libsigrokdecode init failed.'']))"
proof -
  define r where "r = snd (parse_arguments b opts initial_locals)"
  define loop where "loop = prologue b @ fst (parse_arguments b opts initial_locals)"
  have m: "main b e opts positional =
      (loop @ fst (after_loop b e positional r), snd (after_loop b e positional r))"
    by (simp add: main_after_loop r_def loop_def)
  have "\<not> starts_subsystem x" if "x \<in> set loop" for x
    using that unfolding loop_def by (auto dest: prologue_events parse_arguments_events)
  then have lc: "\<not> runs_application x \<and> x \<noteq> Srd_decoder_load_all \<and> x \<noteq> Srd_exit \<and> x \<noteq> Srd_init"
    if "x \<in> set loop" for x
    using that not_starts_calm by blast
  have rz: "case r of Exit_with code \<Rightarrow> True | Parsed st \<Rightarrow> ret st = 0"
  proof (cases r)
    case (Exit_with code)
    then show ?thesis by simp
  next
    case (Parsed st)
    then have "parse_arguments b opts initial_locals =
        (fst (parse_arguments b opts initial_locals), Parsed st)"
      by (simp add: r_def prod_eq_iff)
    from parse_arguments_keeps [OF this] Parsed show ?thesis by (simp add: initial_locals_def)
  qed
  note al = after_loop_init_failure [OF assms rz, of positional]
  from al have 1: "list_all (\<lambda>x. \<not> runs_application x \<and> x \<noteq> Srd_decoder_load_all \<and> x \<noteq> Srd_exit)
           (fst (main b e opts positional))"
    using lc by (auto simp add: m list_all_iff)
  have 2: "snd (main b e opts positional) = Returned 0
          \<and> (\<exists>t. fst (main b e opts positional) =
                 t @ [Srd_init, QDebug ''ERROR: libsigrokdecode init failed.''])"
    if i: "Srd_init \<in> set (fst (main b e opts positional))"
  proof -
    from i lc have "Srd_init \<in> set (fst (after_loop b e positional r))"
      by (auto simp add: m)
    with al obtain t where o: "snd (after_loop b e positional r) = Returned 0"
      and t: "fst (after_loop b e positional r) =
                 t @ [Srd_init, QDebug ''ERROR: libsigrokdecode init failed.'']"
      by blast
    have "fst (main b e opts positional) =
        (loop @ t) @ [Srd_init, QDebug ''ERROR: libsigrokdecode init failed.'']"
      by (simp add: m t)
    with o show ?thesis by (auto simp add: m)
  qed
  from 1 2 show ?thesis by blast
qed

text \<open>\<open>-i a.sr\<close> with a failing \<open>srd_init\<close>.\<close>

theorem decoder_init_failure_witness:
  "list_all (\<lambda>x. \<not> runs_application x \<and> x \<noteq> Srd_decoder_load_all \<and> x \<noteq> Srd_exit)
     (fst (main desktop_build srd_failing_env [(CHR ''i'', ''a.sr'')] []))
   \<and> Srd_init \<in> set (fst (main desktop_build srd_failing_env [(CHR ''i'', ''a.sr'')] []))
   \<and> snd (main desktop_build srd_failing_env [(CHR ''i'', ''a.sr'')] []) = Returned 0
   \<and> (\<exists>t. fst (main desktop_build srd_failing_env [(CHR ''i'', ''a.sr'')] []) =
          t @ [Srd_init, QDebug ''ERROR: libsigrokdecode init failed.''])"
proof -
  have d: "enable_decode desktop_build" and f: "\<not> srd_init_ok srd_failing_env"
    by (simp_all add: desktop_build_def srd_failing_env_def)
  have i: "Srd_init \<in> set (fst (main desktop_build srd_failing_env [(CHR ''i'', ''a.sr'')] []))"
    by (simp add: model_defs)
  from decoder_init_failure [OF d f, of "[(CHR ''i'', ''a.sr'')]" "[]"] i
  show ?thesis by blast
qed

text \<open>
  The run without arguments and a failing \<open>srd_init\<close>: it ends at the log line;
  there is no device manager, no main window and no event loop in it.
\<close>

theorem decoder_init_failure_counterexample:
  "main desktop_build srd_failing_env [] [] =
     ([Application_ctor, Global_settings_ctor, Set_defaults_where_needed, Logging_init,
       Context_create, Session_sr_context_assign, Srd_init,
       QDebug ''ERROR: libsigrokdecode init failed.''],
      Returned 0)"
  by (simp add: model_defs)

section \<open>Restoring sessions and opening the input file\<close>

text \<open>The only assignment to \<open>restore_sessions\<close> is the one of \<open>case 'c'\<close> (line 184).\<close>

lemma parse_arguments_restore:
  "parse_arguments b opts st = (t, Parsed st') \<Longrightarrow>
     restore_sessions st' = (restore_sessions st \<and> \<not> list_ex (\<lambda>opt. fst opt = CHR ''c'') opts)"
proof (induction opts arbitrary: st t)
  case Nil
  then show ?case by simp
next
  case (Cons opt opts)
  obtain c a where opt: "opt = (c, a)" by (cases opt)
  obtain evs r where sw: "switch_c b st c a = (evs, r)" by (cases "switch_c b st c a")
  show ?case
  proof (cases r)
    case (Exit_with code)
    with Cons.prems opt sw show ?thesis by simp
  next
    case (Parsed st1)
    have k: "restore_sessions st1 = (restore_sessions st \<and> c \<noteq> CHR ''c'')"
      using sw Parsed by (auto simp add: switch_c_def split: if_splits)
    obtain t2 where "parse_arguments b opts st1 = (t2, Parsed st')"
      using Cons.prems opt sw Parsed by (auto split: prod.splits)
    from Cons.IH [OF this] k opt show ?thesis by auto
  qed
qed

lemma parse_command_line_restore:
  assumes "parse_command_line b opts positional = (t, Parsed st)"
  shows "restore_sessions st = (\<not> list_ex (\<lambda>opt. fst opt = CHR ''c'') opts)"
proof -
  obtain t0 r where p: "parse_arguments b opts initial_locals = (t0, r)"
    by (cases "parse_arguments b opts initial_locals")
  from assms p obtain st0 where r: "r = Parsed st0" and s: "restore_sessions st = restore_sessions st0"
    by (cases r) (auto simp add: parse_command_line_def split: if_splits)
  from parse_arguments_restore [of b opts initial_locals t0 st0] p r s
  show ?thesis by (simp add: initial_locals_def)
qed

text \<open>
  Claim C1, as the code has it. Lines 249 to 255 are two independent statements:
  \<open>restore_sessions\<close> decides on \<open>w.restore_sessions()\<close>, and \<open>open_file\<close> decides
  between \<open>w.add_session_with_file\<close> and \<open>w.add_default_session()\<close>. Take a command
  line that is parsed to its end and gives an input file, and a run that gets as
  far as the main window. Then \<open>restore_sessions\<close> is true exactly when no \<open>-c\<close>
  option was given, whatever the input file is. The run constructs the device
  manager and the window, restores the previous sessions when \<open>restore_sessions\<close>
  is true (and only then), and then opens the input file with its format. What
  the input file excludes is the default session, which is never created.
\<close>

theorem restore_and_input_file:
  assumes "parse_command_line b opts positional = (t, Parsed st)"
    and "open_file st \<noteq> []"
    and "fault e Context_create = None"
    and "enable_decode b \<longrightarrow> srd_init_ok e"
    and "list_all (\<lambda>c. fault e c = None)
           [Device_manager_ctor Context_handle (driver st) (do_scan st), Main_window_ctor, Show,
            Restore_sessions]"
  shows "restore_sessions st = (\<not> list_ex (\<lambda>opt. fst opt = CHR ''c'') opts)
       \<and> (\<exists>t1 t2. fst (main b e opts positional) =
            t1 @ [Device_manager_ctor Context_handle (driver st) (do_scan st), Main_window_ctor,
                  Show]
               @ (if restore_sessions st then [Restore_sessions] else [])
               @ [Add_session_with_file (open_file st) (open_file_format st)] @ t2)
       \<and> (Restore_sessions \<in> set (fst (main b e opts positional))) = restore_sessions st
       \<and> Add_default_session \<notin> set (fst (main b e opts positional))"
proof -
  define st2 where "st2 = st\<lparr>context' := Context_handle\<rparr>"
  define first where "first =
    [Device_manager_ctor Context_handle (driver st) (do_scan st), Main_window_ctor, Show]
    @ (if restore_sessions st then [Restore_sessions] else [])"
  define add where "add = Add_session_with_file (open_file st) (open_file_format st)"
  have m: "main b e opts positional = (prologue b @ t @ fst (startup b e st), snd (startup b e st))"
    and quiet: "list_all (\<lambda>x. \<not> starts_subsystem x) t"
    using parse_command_line_Parsed [OF assms(1)] by simp_all
  obtain rest where w: "window_calls b e st2 = first @ add # rest"
    using assms(2) by (simp add: window_calls_def st2_def first_def add_def)
  from assms(5) have "list_all (\<lambda>c. fault e c = None) first" by (simp add: first_def)
  from run_calls_first [OF this, of add rest] obtain t3
    where rc: "fst (run_calls (fault e) (window_calls b e st2)) = first @ add # t3"
    by (auto simp add: w)
  have "\<exists>t4. fst (guarded_block b e st2) = first @ add # t4"
    using rc by (auto simp add: guarded_block_def split: prod.splits option.splits exn.splits)
  then obtain t4 where g: "fst (guarded_block b e st2) = first @ add # t4" by blast
  have "\<exists>t5. fst (do_block b e st2) = decode_init b @ first @ add # t5"
    using g assms(4) by (auto simp add: do_block_def split: prod.splits sum.splits)
  then obtain t5 where d: "fst (do_block b e st2) = decode_init b @ first @ add # t5" by blast
  have s: "fst (startup b e st) =
      before_context st @ after_context b e @ decode_init b @ first @ add # t5"
    using assms(3) d unfolding startup_def st2_def by (auto split: prod.splits)
  have 1: "fst (main b e opts positional) =
      (prologue b @ t @ before_context st @ after_context b e @ decode_init b)
      @ (first @ [add]) @ t5"
    by (simp add: m s)
  have outside: "x \<notin> set (prologue b)" "x \<notin> set t"
    if "starts_subsystem x" for x
    using that quiet by (auto simp add: list_all_iff dest: prologue_events)
  have nd: "Add_default_session \<notin> set (window_calls b e st2)"
    using assms(2) by (simp add: window_calls_def st2_def)
  have "Add_default_session \<notin> set (fst (startup b e st))"
    using startup_events [of Add_default_session b e st] nd
    by (auto simp add: before_context_def after_context_def st2_def split: if_splits)
  then have 2: "Add_default_session \<notin> set (fst (main b e opts positional))"
    using outside [of Add_default_session] by (simp add: m)
  have 3: "(Restore_sessions \<in> set (fst (main b e opts positional))) = restore_sessions st"
  proof (cases "restore_sessions st")
    case True
    then have "Restore_sessions \<in> set first" by (simp add: first_def)
    with True show ?thesis by (simp add: 1)
  next
    case False
    then have "Restore_sessions \<notin> set (window_calls b e st2)"
      by (simp add: window_calls_def st2_def)
    then have "Restore_sessions \<notin> set (fst (startup b e st))"
      using startup_events [of Restore_sessions b e st]
      by (auto simp add: before_context_def after_context_def st2_def split: if_splits)
    with False show ?thesis
      using outside [of Restore_sessions] by (simp add: m)
  qed
  from 1 have 4: "\<exists>t1 t2. fst (main b e opts positional) = t1 @ (first @ [add]) @ t2" by blast
  from 2 3 4 parse_command_line_restore [OF assms(1)] show ?thesis
    by (simp add: first_def add_def)
qed

text \<open>
  \<open>-d fx2lafw a.sr\<close>: the sessions are restored and the file is opened.
  \<open>-c -i a.sr\<close>: the file is opened and nothing is restored.
\<close>

theorem restore_and_input_file_witness:
  "(\<exists>t1 t2. fst (main desktop_build calm_env [(CHR ''d'', ''fx2lafw'')] [''a.sr'']) =
      t1 @ [Device_manager_ctor Context_handle ''fx2lafw'' True, Main_window_ctor, Show,
            Restore_sessions, Add_session_with_file ''a.sr'' []] @ t2)
   \<and> Restore_sessions \<in> set (fst (main desktop_build calm_env [(CHR ''d'', ''fx2lafw'')] [''a.sr'']))
   \<and> Add_default_session \<notin> set (fst (main desktop_build calm_env [(CHR ''d'', ''fx2lafw'')] [''a.sr'']))
   \<and> (\<exists>t1 t2. fst (main desktop_build calm_env [(CHR ''c'', []), (CHR ''i'', ''a.sr'')] []) =
      t1 @ [Device_manager_ctor Context_handle [] True, Main_window_ctor, Show,
            Add_session_with_file ''a.sr'' []] @ t2)
   \<and> Restore_sessions \<notin> set (fst (main desktop_build calm_env [(CHR ''c'', []), (CHR ''i'', ''a.sr'')] []))"
proof -
  define st where "st = initial_locals\<lparr>driver := ''fx2lafw'', open_file := ''a.sr''\<rparr>"
  define st' where "st' = initial_locals\<lparr>restore_sessions := False, open_file := ''a.sr''\<rparr>"
  have pc: "parse_command_line desktop_build [(CHR ''d'', ''fx2lafw'')] [''a.sr''] = ([], Parsed st)"
    and pc': "parse_command_line desktop_build [(CHR ''c'', []), (CHR ''i'', ''a.sr'')] [] = ([], Parsed st')"
    by (simp_all add: parse_command_line_def switch_c_def st_def st'_def)
  have f: "open_file st \<noteq> []" "open_file st' \<noteq> []"
    and dr: "driver st = ''fx2lafw''" "do_scan st" "open_file st = ''a.sr''" "open_file_format st = []"
      "driver st' = []" "do_scan st'" "open_file st' = ''a.sr''" "open_file_format st' = []"
    by (simp_all add: st_def st'_def initial_locals_def)
  have c: "fault calm_env Context_create = None"
    and d: "enable_decode desktop_build \<longrightarrow> srd_init_ok calm_env"
    and n: "list_all (\<lambda>c. fault calm_env c = None)
           [Device_manager_ctor Context_handle (driver st) (do_scan st), Main_window_ctor, Show,
            Restore_sessions]"
    and n': "list_all (\<lambda>c. fault calm_env c = None)
           [Device_manager_ctor Context_handle (driver st') (do_scan st'), Main_window_ctor, Show,
            Restore_sessions]"
    by (simp_all add: calm_env_def)
  have r: "restore_sessions st"
    using restore_and_input_file [OF pc f(1) c d n] by simp
  have r': "\<not> restore_sessions st'"
    using restore_and_input_file [OF pc' f(2) c d n'] by simp
  from restore_and_input_file [OF pc f(1) c d n] r
  have 1: "(\<exists>t1 t2. fst (main desktop_build calm_env [(CHR ''d'', ''fx2lafw'')] [''a.sr'']) =
      t1 @ [Device_manager_ctor Context_handle ''fx2lafw'' True, Main_window_ctor, Show,
            Restore_sessions, Add_session_with_file ''a.sr'' []] @ t2)
   \<and> Restore_sessions \<in> set (fst (main desktop_build calm_env [(CHR ''d'', ''fx2lafw'')] [''a.sr'']))
   \<and> Add_default_session \<notin> set (fst (main desktop_build calm_env [(CHR ''d'', ''fx2lafw'')] [''a.sr'']))"
    by (simp add: dr)
  from restore_and_input_file [OF pc' f(2) c d n'] r'
  have 2: "(\<exists>t1 t2. fst (main desktop_build calm_env [(CHR ''c'', []), (CHR ''i'', ''a.sr'')] []) =
      t1 @ [Device_manager_ctor Context_handle [] True, Main_window_ctor, Show,
            Add_session_with_file ''a.sr'' []] @ t2)
   \<and> Restore_sessions \<notin> set (fst (main desktop_build calm_env [(CHR ''c'', []), (CHR ''i'', ''a.sr'')] []))"
    by (simp add: dr)
  from 1 2 show ?thesis by blast
qed

text \<open>The whole run with \<open>-i a.sr\<close>: \<open>Restore_sessions\<close> is in it, before the file is opened.\<close>

theorem restore_with_input_file_counterexample:
  "main desktop_build calm_env [(CHR ''i'', ''a.sr'')] [] =
     ([Application_ctor, Global_settings_ctor, Set_defaults_where_needed, Logging_init,
       Context_create, Session_sr_context_assign, Srd_init, Srd_decoder_load_all,
       Device_manager_ctor Context_handle [] True, Main_window_ctor, Show, Restore_sessions,
       Add_session_with_file ''a.sr'' [], Prepare_signals, Signal_handler_ctor,
       Connect_int_received, Connect_term_received, Exec, Srd_exit],
      Returned 0)"
  by (simp add: model_defs)

section \<open>Help, version and the positional arguments\<close>

text \<open>
  An option list with a help or version option splits at the first of them; so the
  statements below, made for a list cut at its first such option, cover every list
  that holds one.
\<close>

lemma first_terminal_split:
  assumes "\<not> parses_through opts"
  shows "\<exists>pre c a post. opts = pre @ (c, a) # post \<and> parses_through pre \<and> terminal (c, a)"
proof -
  from assms have "\<exists>opt \<in> set opts. terminal opt"
    by (auto simp add: parses_through_def list_all_iff)
  then obtain pre opt post where "opts = pre @ opt # post" "terminal opt" "\<forall>y \<in> set pre. \<not> terminal y"
    using split_list_first_prop [of opts terminal] by blast
  then show ?thesis
    by (cases opt) (auto simp add: parses_through_def list_all_iff)
qed

lemma parse_arguments_terminal:
  assumes "parses_through pre" "terminal (c, a)"
  shows "\<exists>t. parse_arguments b (pre @ (c, a) # post) st =
           (t @ (if c = CHR ''V'' then version_output b else usage b), Exit_with 0)"
proof -
  from parse_arguments_through [OF assms(1), of b st] obtain t st'
    where p: "parse_arguments b pre st = (t, Parsed st')" by blast
  show ?thesis
    by (simp add: parse_arguments_append p switch_c_terminal [OF assms(2)] version_output_def)
qed

text \<open>
  Claim C7. When \<open>getopt_long\<close> returns a help option (\<open>h\<close>, or \<open>?\<close>, which is also
  its answer to an option it does not know) or the version option (\<open>V\<close>), and no
  such option came before, \<open>main\<close> prints the usage text of lines 80 to 96
  respectively the name and version as its last output and returns 0; no call of line 201 or after is made
  in the run: no settings store, logging, acquisition context, device manager or
  main window. (An earlier \<open>-l 5\<close> builds a local \<open>QSettings\<close> object for its debug
  line; that is not the \<open>pv::GlobalSettings\<close> store of line 202.)
\<close>

theorem help_version_exit:
  assumes "parses_through pre" "terminal (c, a)"
  shows "snd (main b e (pre @ (c, a) # post) positional) = Returned 0
     \<and> (\<exists>t. fst (main b e (pre @ (c, a) # post) positional) =
          t @ [Stdout
                (if c = CHR ''V'' then pv_title b @ '' '' @ pv_version_string b @ [CHR 0x0A]
                 else concat (map (\<lambda>l. l @ [CHR 0x0A])
                   [''Usage:'',
                    ''  '' @ pv_bin_name b @ '' [OPTIONS] [FILE]'',
                    '''',
                    ''Help Options:'',
                    ''  -h, -?, --help                  Show help option'',
                    '''',
                    ''Application Options:'',
                    ''  -V, --version                   Show release version'',
                    ''  -l, --loglevel                  Set libsigrok/libsigrokdecode loglevel'',
                    ''  -d, --driver                    Specify the device driver to use'',
                    ''  -D, --no-scan                   Don'' @ [CHR 0x27]
                      @ ''t auto-scan for devices, use -d spec only'',
                    ''  -i, --input-file                Load input from file'',
                    ''  -I, --input-format              Input format'',
                    ''  -c, --clean                     Don'' @ [CHR 0x27]
                      @ ''t restore previous sessions on startup'',
                    ''  -s, --log-to-stdout             Don'' @ [CHR 0x27]
                      @ ''t use logging, output to stdout instead'',
                    '''']))])
     \<and> list_all (\<lambda>x. \<not> starts_subsystem x) (fst (main b e (pre @ (c, a) # post) positional))"
proof -
  from parse_arguments_terminal [OF assms, of b post initial_locals] obtain t
    where p: "parse_arguments b (pre @ (c, a) # post) initial_locals =
      (t @ (if c = CHR ''V'' then version_output b else usage b), Exit_with 0)"
    by blast
  have m: "main b e (pre @ (c, a) # post) positional =
      (prologue b @ t @ (if c = CHR ''V'' then version_output b else usage b), Returned 0)"
    by (simp add: main_after_loop p after_loop_def)
  have ev: "\<not> starts_subsystem x"
    if "x \<in> set (prologue b @ fst (parse_arguments b (pre @ (c, a) # post) initial_locals))" for x
    using that by (auto dest: prologue_events parse_arguments_events)
  have q: "list_all (\<lambda>x. \<not> starts_subsystem x)
      (prologue b @ t @ (if c = CHR ''V'' then version_output b else usage b))"
    unfolding list_all_iff using ev by (simp add: p)
  have out: "(if c = CHR ''V'' then version_output b else usage b) =
      [Stdout
                (if c = CHR ''V'' then pv_title b @ '' '' @ pv_version_string b @ [CHR 0x0A]
                 else concat (map (\<lambda>l. l @ [CHR 0x0A])
                   [''Usage:'',
                    ''  '' @ pv_bin_name b @ '' [OPTIONS] [FILE]'',
                    '''',
                    ''Help Options:'',
                    ''  -h, -?, --help                  Show help option'',
                    '''',
                    ''Application Options:'',
                    ''  -V, --version                   Show release version'',
                    ''  -l, --loglevel                  Set libsigrok/libsigrokdecode loglevel'',
                    ''  -d, --driver                    Specify the device driver to use'',
                    ''  -D, --no-scan                   Don'' @ [CHR 0x27]
                      @ ''t auto-scan for devices, use -d spec only'',
                    ''  -i, --input-file                Load input from file'',
                    ''  -I, --input-format              Input format'',
                    ''  -c, --clean                     Don'' @ [CHR 0x27]
                      @ ''t restore previous sessions on startup'',
                    ''  -s, --log-to-stdout             Don'' @ [CHR 0x27]
                      @ ''t use logging, output to stdout instead'',
                    '''']))]"
    by (simp add: version_output_def usage_def usage_lines_def newline_def)
  have "fst (main b e (pre @ (c, a) # post) positional) =
      (prologue b @ t) @ (if c = CHR ''V'' then version_output b else usage b)"
    by (simp add: m)
  then have "\<exists>t'. fst (main b e (pre @ (c, a) # post) positional) =
      t' @ (if c = CHR ''V'' then version_output b else usage b)"
    by blast
  with m q show ?thesis unfolding out by simp
qed

text \<open>
  \<open>-i a.sr -V -h b.sr c.sr\<close>: the version is printed, the later \<open>-h\<close> is never seen.
  \<open>-c -h b.sr\<close>: the usage text is printed.
\<close>

theorem help_version_exit_witness:
  "snd (main desktop_build calm_env [(CHR ''i'', ''a.sr''), (CHR ''V'', []), (CHR ''h'', [])] [''b.sr'', ''c.sr'']) = Returned 0
   \<and> (\<exists>t. fst (main desktop_build calm_env [(CHR ''i'', ''a.sr''), (CHR ''V'', []), (CHR ''h'', [])] [''b.sr'', ''c.sr''])
            = t @ [Stdout (''PulseView 0.5.0'' @ [CHR 0x0A])])
   \<and> list_all (\<lambda>x. \<not> starts_subsystem x)
        (fst (main desktop_build calm_env [(CHR ''i'', ''a.sr''), (CHR ''V'', []), (CHR ''h'', [])] [''b.sr'', ''c.sr'']))
   \<and> snd (main desktop_build calm_env [(CHR ''c'', []), (CHR ''h'', [])] [''b.sr'']) = Returned 0
   \<and> (\<exists>t. fst (main desktop_build calm_env [(CHR ''c'', []), (CHR ''h'', [])] [''b.sr''])
            = t @ [Stdout (concat (map (\<lambda>l. l @ [CHR 0x0A])
                   [''Usage:'',
                    ''  pulseview [OPTIONS] [FILE]'',
                    '''',
                    ''Help Options:'',
                    ''  -h, -?, --help                  Show help option'',
                    '''',
                    ''Application Options:'',
                    ''  -V, --version                   Show release version'',
                    ''  -l, --loglevel                  Set libsigrok/libsigrokdecode loglevel'',
                    ''  -d, --driver                    Specify the device driver to use'',
                    ''  -D, --no-scan                   Don'' @ [CHR 0x27]
                      @ ''t auto-scan for devices, use -d spec only'',
                    ''  -i, --input-file                Load input from file'',
                    ''  -I, --input-format              Input format'',
                    ''  -c, --clean                     Don'' @ [CHR 0x27]
                      @ ''t restore previous sessions on startup'',
                    ''  -s, --log-to-stdout             Don'' @ [CHR 0x27]
                      @ ''t use logging, output to stdout instead'',
                    '''']))])
   \<and> list_all (\<lambda>x. \<not> starts_subsystem x)
        (fst (main desktop_build calm_env [(CHR ''c'', []), (CHR ''h'', [])] [''b.sr'']))"
proof -
  have p: "parses_through [(CHR ''i'', ''a.sr'')]" and t: "terminal (CHR ''V'', [])"
    and p': "parses_through [(CHR ''c'', [])]" and t': "terminal (CHR ''h'', [])"
    by (simp_all add: parses_through_def terminal_def)
  have b: "pv_title desktop_build = ''PulseView''" "pv_version_string desktop_build = ''0.5.0''"
    "pv_bin_name desktop_build = ''pulseview''"
    by (simp_all add: desktop_build_def)
  from help_version_exit [OF p t, of desktop_build calm_env "[(CHR ''h'', [])]" "[''b.sr'', ''c.sr'']"]
  have 1: "snd (main desktop_build calm_env [(CHR ''i'', ''a.sr''), (CHR ''V'', []), (CHR ''h'', [])] [''b.sr'', ''c.sr'']) = Returned 0
   \<and> (\<exists>t. fst (main desktop_build calm_env [(CHR ''i'', ''a.sr''), (CHR ''V'', []), (CHR ''h'', [])] [''b.sr'', ''c.sr''])
            = t @ [Stdout (''PulseView 0.5.0'' @ [CHR 0x0A])])
   \<and> list_all (\<lambda>x. \<not> starts_subsystem x)
        (fst (main desktop_build calm_env [(CHR ''i'', ''a.sr''), (CHR ''V'', []), (CHR ''h'', [])] [''b.sr'', ''c.sr'']))"
    by (simp add: b)
  from help_version_exit [OF p' t', of desktop_build calm_env "[]" "[''b.sr'']"]
  have 2: "snd (main desktop_build calm_env [(CHR ''c'', []), (CHR ''h'', [])] [''b.sr'']) = Returned 0
   \<and> (\<exists>t. fst (main desktop_build calm_env [(CHR ''c'', []), (CHR ''h'', [])] [''b.sr''])
            = t @ [Stdout (concat (map (\<lambda>l. l @ [CHR 0x0A])
                   [''Usage:'',
                    ''  pulseview [OPTIONS] [FILE]'',
                    '''',
                    ''Help Options:'',
                    ''  -h, -?, --help                  Show help option'',
                    '''',
                    ''Application Options:'',
                    ''  -V, --version                   Show release version'',
                    ''  -l, --loglevel                  Set libsigrok/libsigrokdecode loglevel'',
                    ''  -d, --driver                    Specify the device driver to use'',
                    ''  -D, --no-scan                   Don'' @ [CHR 0x27]
                      @ ''t auto-scan for devices, use -d spec only'',
                    ''  -i, --input-file                Load input from file'',
                    ''  -I, --input-format              Input format'',
                    ''  -c, --clean                     Don'' @ [CHR 0x27]
                      @ ''t restore previous sessions on startup'',
                    ''  -s, --log-to-stdout             Don'' @ [CHR 0x27]
                      @ ''t use logging, output to stdout instead'',
                    '''']))])
   \<and> list_all (\<lambda>x. \<not> starts_subsystem x)
        (fst (main desktop_build calm_env [(CHR ''c'', []), (CHR ''h'', [])] [''b.sr'']))"
    by (simp add: b)
  from 1 2 show ?thesis by blast
qed

text \<open>
  Claim C8, as the code has it. The test \<open>argc - optind > 1\<close> is made after the
  argument loop, so it is reached only when the loop met no help or version
  option. Then two or more positional arguments end the run: the diagnostic
  "Only one file can be opened." goes to the error stream as the last output,
  \<open>main\<close> returns 1, and no call of line 201 or after is made.
\<close>

theorem too_many_files:
  assumes "parses_through opts" "2 \<le> length positional"
  shows "snd (main b e opts positional) = Returned 1
     \<and> (\<exists>t. fst (main b e opts positional) = t @ [only_one_file])
     \<and> list_all (\<lambda>x. \<not> starts_subsystem x) (fst (main b e opts positional))"
proof -
  from parse_arguments_through [OF assms(1), of b initial_locals] obtain t st
    where p: "parse_arguments b opts initial_locals = (t, Parsed st)" by blast
  from assms(2) have m: "main b e opts positional = (prologue b @ t @ [only_one_file], Returned 1)"
    by (simp add: main_after_loop p after_loop_def only_one_file_def)
  have ev: "\<not> starts_subsystem x"
    if "x \<in> set (prologue b @ fst (parse_arguments b opts initial_locals))" for x
    using that by (auto dest: prologue_events parse_arguments_events)
  have "list_all (\<lambda>x. \<not> starts_subsystem x) (prologue b @ t @ [only_one_file])"
    unfolding list_all_iff using ev by (auto simp add: p only_one_file_def)
  with m show ?thesis by auto
qed

text \<open>\<open>-c a.bin b.bin\<close>.\<close>

theorem too_many_files_witness:
  "snd (main desktop_build calm_env [(CHR ''c'', [])] [''a.bin'', ''b.bin'']) = Returned 1
   \<and> (\<exists>t. fst (main desktop_build calm_env [(CHR ''c'', [])] [''a.bin'', ''b.bin'']) = t @ [only_one_file])
   \<and> list_all (\<lambda>x. \<not> starts_subsystem x)
        (fst (main desktop_build calm_env [(CHR ''c'', [])] [''a.bin'', ''b.bin'']))"
proof -
  have p: "parses_through [(CHR ''c'', [])]" by (simp add: parses_through_def terminal_def)
  have l: "2 \<le> length [''a.bin'', ''b.bin'']" by simp
  from too_many_files [OF p l] show ?thesis by blast
qed

text \<open>
  \<open>-h a.bin b.bin\<close> has two positional arguments: the usage text is printed and
  \<open>main\<close> returns 0, with no diagnostic.
\<close>

theorem help_before_files_counterexample:
  "main desktop_build calm_env [(CHR ''h'', [])] [''a.bin'', ''b.bin'']
     = (Application_ctor # usage desktop_build, Returned 0)"
  by (simp add: model_defs)

text \<open>With exactly one positional argument no other file is ever opened.\<close>

lemma file_opened_is_positional:
  "Add_session_with_file f' fmt \<in> set (fst (main b e opts [p])) \<Longrightarrow> f' = p"
proof -
  assume a: "Add_session_with_file f' fmt \<in> set (fst (main b e opts [p]))"
  define r where "r = snd (parse_arguments b opts initial_locals)"
  have "Add_session_with_file f' fmt \<notin> set (prologue b @ fst (parse_arguments b opts initial_locals))"
    by (auto dest: prologue_events parse_arguments_events)
  with a have al: "Add_session_with_file f' fmt \<in> set (fst (after_loop b e [p] r))"
    by (auto simp add: main_after_loop r_def)
  show ?thesis
  proof (cases r)
    case (Exit_with code)
    with al show ?thesis by (simp add: after_loop_def)
  next
    case (Parsed st)
    with al have "Add_session_with_file f' fmt \<in> set (fst (startup b e (st\<lparr>open_file := p\<rparr>)))"
      by (simp add: after_loop_def)
    from startup_events [OF this] show ?thesis
      by (auto simp add: before_context_def after_context_def window_calls_def split: if_splits)
  qed
qed

text \<open>
  Claim C10. With an \<open>-i\<close> option among the options and exactly one positional
  argument \<open>p\<close>, the command line that is parsed to its end yields \<open>open_file = p\<close>,
  wherever the \<open>-i\<close> stands and whatever its value \<open>f\<close> is: line 199 assigns after
  the loop. The rest of the run is \<open>startup\<close> with these locals, and no file other
  than \<open>p\<close> is opened in it.
\<close>

theorem positional_overrides_input_file:
  assumes "parses_through (pre @ (CHR ''i'', f) # post)"
  shows "\<exists>t st. parse_command_line b (pre @ (CHR ''i'', f) # post) [p] = (t, Parsed st)
           \<and> open_file st = p
           \<and> main b e (pre @ (CHR ''i'', f) # post) [p] =
               (prologue b @ t @ fst (startup b e st), snd (startup b e st))
           \<and> (\<forall>f' fmt. Add_session_with_file f' fmt
                          \<in> set (fst (main b e (pre @ (CHR ''i'', f) # post) [p]))
                        \<longrightarrow> f' = p)"
proof -
  from parse_arguments_through [OF assms, of b initial_locals] obtain t st
    where p: "parse_arguments b (pre @ (CHR ''i'', f) # post) initial_locals = (t, Parsed st)"
    by blast
  have c: "parse_command_line b (pre @ (CHR ''i'', f) # post) [p] = (t, Parsed (st\<lparr>open_file := p\<rparr>))"
    by (simp add: parse_command_line_def p)
  have m: "main b e (pre @ (CHR ''i'', f) # post) [p] =
      (prologue b @ t @ fst (startup b e (st\<lparr>open_file := p\<rparr>)), snd (startup b e (st\<lparr>open_file := p\<rparr>)))"
    by (simp add: main_def c split: prod.splits)
  have "f' = p"
    if "Add_session_with_file f' fmt \<in> set (fst (main b e (pre @ (CHR ''i'', f) # post) [p]))"
    for f' fmt
    using that by (rule file_opened_is_positional)
  with c m show ?thesis by auto
qed

text \<open>\<open>-i a.sr -c b.sr\<close>.\<close>

theorem positional_overrides_input_file_witness:
  "\<exists>t st. parse_command_line desktop_build [(CHR ''i'', ''a.sr''), (CHR ''c'', [])] [''b.sr''] = (t, Parsed st)
     \<and> open_file st = ''b.sr''
     \<and> main desktop_build calm_env [(CHR ''i'', ''a.sr''), (CHR ''c'', [])] [''b.sr''] =
         (prologue desktop_build @ t @ fst (startup desktop_build calm_env st),
          snd (startup desktop_build calm_env st))"
proof -
  have p: "parses_through ([] @ (CHR ''i'', ''a.sr'') # [(CHR ''c'', [])])"
    by (simp add: parses_through_def terminal_def)
  from positional_overrides_input_file [OF p, of desktop_build "''b.sr''" calm_env]
  show ?thesis by auto
qed

section \<open>The log level option\<close>

text \<open>
  An \<open>-l\<close> option after options that are parsed through: its events are inserted,
  and the loop goes on as it does without the option.
\<close>

lemma parse_arguments_loglevel_option:
  assumes "parses_through pre"
  shows "\<exists>st1 B r.
      parse_arguments b (pre @ post) initial_locals =
        (fst (parse_arguments b pre initial_locals) @ B, r)
    \<and> parse_arguments b (pre @ (CHR ''l'', s) # post) initial_locals =
        (fst (parse_arguments b pre initial_locals) @ case_l b st1 (atoi s) @ B, r)
    \<and> context' st1 = Null_context"
proof -
  from parse_arguments_through [OF assms, of b initial_locals] obtain t1 st1
    where p: "parse_arguments b pre initial_locals = (t1, Parsed st1)"
      and c: "context' st1 = context' initial_locals"
    by blast
  have sw: "switch_c b st1 (CHR ''l'') s = (case_l b st1 (atoi s), Parsed st1)"
    by (simp add: switch_c_def)
  have 1: "parse_arguments b (pre @ post) initial_locals =
      (t1 @ fst (parse_arguments b post st1), snd (parse_arguments b post st1))"
    by (simp add: parse_arguments_append p)
  have 2: "parse_arguments b (pre @ (CHR ''l'', s) # post) initial_locals =
      (t1 @ case_l b st1 (atoi s) @ fst (parse_arguments b post st1), snd (parse_arguments b post st1))"
    by (simp add: parse_arguments_append p sw split: prod.splits)
  from c have 3: "context' st1 = Null_context" by (simp add: initial_locals_def)
  show ?thesis
    by (rule exI [of _ st1], rule exI [of _ "fst (parse_arguments b post st1)"],
        rule exI [of _ "snd (parse_arguments b post st1)"])
       (simp add: 1 2 3 p)
qed

text \<open>
  The range check of line 149. Take an \<open>-l\<close> option with argument \<open>s\<close> that the loop
  reaches, and let \<open>v = atoi s\<close>. The run is the run without the option, with the
  events of \<open>case 'l'\<close> inserted where the option is parsed, and it ends the same
  way. For \<open>v\<close> in 0..5 the inserted events are the calls of the log-level setters
  with \<open>v\<close> (\<open>context->set_log_level\<close>, through the empty pointer, and
  \<open>srd_log_loglevel_set\<close> when the decoders are compiled in; for 5 also the debug
  line on the settings file). For \<open>v\<close> outside 0..5 the only inserted event is the
  warning: no setter is called.
\<close>

lemma loglevel_option_effect:
  assumes "parses_through pre"
  shows "\<exists>B. fst (main b e (pre @ post) positional) =
            prologue b @ fst (parse_arguments b pre initial_locals) @ B
       \<and> fst (main b e (pre @ (CHR ''l'', s) # post) positional) =
            prologue b @ fst (parse_arguments b pre initial_locals)
            @ (if 0 \<le> atoi s \<and> atoi s \<le> 5 then
                 [Set_log_level Null_context (atoi s)]
                 @ (if enable_decode b then [Srd_log_loglevel_set (atoi s)] else [])
                 @ (if atoi s = 5 then [QSettings_debug] else [])
               else [invalid_log_level])
            @ B
       \<and> snd (main b e (pre @ (CHR ''l'', s) # post) positional) =
           snd (main b e (pre @ post) positional)"
proof -
  from parse_arguments_loglevel_option [OF assms, of b post s] obtain st1 B r
    where 1: "parse_arguments b (pre @ post) initial_locals =
        (fst (parse_arguments b pre initial_locals) @ B, r)"
      and 2: "parse_arguments b (pre @ (CHR ''l'', s) # post) initial_locals =
        (fst (parse_arguments b pre initial_locals) @ case_l b st1 (atoi s) @ B, r)"
      and 3: "context' st1 = Null_context"
    by blast
  have c: "case_l b st1 (atoi s) =
      (if 0 \<le> atoi s \<and> atoi s \<le> 5 then
         [Set_log_level Null_context (atoi s)]
         @ (if enable_decode b then [Srd_log_loglevel_set (atoi s)] else [])
         @ (if atoi s = 5 then [QSettings_debug] else [])
       else [invalid_log_level])"
    by (auto simp add: case_l_def 3 invalid_log_level_def)
  show ?thesis
    by (rule exI [of _ "B @ fst (after_loop b e positional r)"])
       (simp add: main_after_loop 1 2 c)
qed

text \<open>\<open>-l 9\<close>: the warning, and the run goes on to the event loop.\<close>

lemma loglevel_9_run:
  "main desktop_build calm_env [(CHR ''l'', ''9'')] [] =
     ([Application_ctor, invalid_log_level, Global_settings_ctor, Set_defaults_where_needed,
       Logging_init, Context_create, Session_sr_context_assign, Srd_init, Srd_decoder_load_all,
       Device_manager_ctor Context_handle [] True, Main_window_ctor, Show, Restore_sessions,
       Add_default_session, Prepare_signals, Signal_handler_ctor, Connect_int_received,
       Connect_term_received, Exec, Srd_exit],
      Returned 0)"
  by (simp add: model_defs invalid_log_level_def)

lemma startup_no_log_level: "Set_log_level h v \<notin> set (fst (startup b e st))"
  using startup_events [of "Set_log_level h v" b e st]
  by (auto simp add: before_context_def after_context_def window_calls_def split: if_splits)

lemma after_loop_no_log_level: "Set_log_level h v \<notin> set (fst (after_loop b e positional r))"
  using startup_no_log_level [of h v b e]
  by (auto simp add: after_loop_def split: parse_result.splits)

text \<open>
  In every run, every call of \<open>context->set_log_level\<close> is made through the empty
  pointer: the only call is line 153, inside the loop, and \<open>context\<close> is assigned at
  line 209.
\<close>

lemma set_log_level_handle:
  "Set_log_level h v \<in> set (fst (main b e opts positional)) \<Longrightarrow> h = Null_context"
proof -
  assume "Set_log_level h v \<in> set (fst (main b e opts positional))"
  then have "Set_log_level h v \<in> set (prologue b)
      \<or> Set_log_level h v \<in> set (fst (parse_arguments b opts initial_locals))"
    using after_loop_no_log_level [of h v b e positional] by (auto simp add: main_after_loop)
  moreover have "Set_log_level h v \<notin> set (prologue b)" by (simp add: prologue_def)
  ultimately have "h = context' initial_locals" using parse_arguments_log_level by blast
  then show ?thesis by (simp add: initial_locals_def)
qed

text \<open>
  Claim C6 against the code, at \<open>-l 5\<close>. The claim reads: a value in 0..5 sets
  the level; a value outside 0..5 is answered with a warning, leaves the level as
  it was and does not end the process. The second half is what the code does
  (\<open>loglevel_option_effect\<close>). For the first half the code passes the range check
  and then calls \<open>context->set_log_level\<close> through the pointer that stays empty
  until line 209, as the second event of the run below shows: the call that is to
  set the level is a member call through a null pointer.
\<close>

theorem loglevel_5_through_empty_pointer:
  "main desktop_build calm_env [(CHR ''l'', ''5'')] [] =
     ([Application_ctor, Set_log_level Null_context 5, Srd_log_loglevel_set 5, QSettings_debug,
       Global_settings_ctor, Set_defaults_where_needed, Logging_init, Context_create,
       Session_sr_context_assign, Srd_init, Srd_decoder_load_all,
       Device_manager_ctor Context_handle [] True, Main_window_ctor, Show, Restore_sessions,
       Add_default_session, Prepare_signals, Signal_handler_ctor, Connect_int_received,
       Connect_term_received, Exec, Srd_exit],
      Returned 0)"
  by (simp add: model_defs)

text \<open>
  Claim C3 against the code, at \<open>-l 3\<close>. The claim reads: a valid log level is
  applied to the acquisition context only after the context has been created, so
  the handle passed to the setter is never null. In the run below the call of
  \<open>set_log_level\<close> is the second event, it goes through the empty pointer, and
  \<open>Context::create()\<close> comes four events later.
\<close>

theorem loglevel_before_context:
  "main desktop_build calm_env [(CHR ''l'', ''3'')] [] =
     ([Application_ctor, Set_log_level Null_context 3, Srd_log_loglevel_set 3,
       Global_settings_ctor, Set_defaults_where_needed, Logging_init, Context_create,
       Session_sr_context_assign, Srd_init, Srd_decoder_load_all,
       Device_manager_ctor Context_handle [] True, Main_window_ctor, Show, Restore_sessions,
       Add_default_session, Prepare_signals, Signal_handler_ctor, Connect_int_received,
       Connect_term_received, Exec, Srd_exit],
      Returned 0)"
  by (simp add: model_defs)

section \<open>What atoi makes of the argument of the log level option\<close>

lemma digits_value_no_digit:
  "(case cs of [] \<Rightarrow> True | d # ds \<Rightarrow> \<not> isdigit d) \<Longrightarrow> digits_value 0 cs = 0"
  by (cases cs) simp_all

lemma atoi_no_number: "\<not> leading_number s \<Longrightarrow> atoi s = 0"
proof -
  assume n: "\<not> leading_number s"
  show ?thesis
  proof (cases "dropWhile isspace s")
    case Nil
    show ?thesis unfolding atoi_def strtol_def Nil by (simp add: int_of_long_def)
  next
    case (Cons c cs)
    show ?thesis
    proof (cases "c = CHR ''-'' \<or> c = CHR ''+''")
      case True
      with n Cons have "case cs of [] \<Rightarrow> True | d # ds \<Rightarrow> \<not> isdigit d"
        by (auto simp add: leading_number_def split: list.splits)
      then have "digits_value 0 cs = 0" by (rule digits_value_no_digit)
      with True show ?thesis unfolding atoi_def strtol_def Cons
        by (auto simp add: int_of_long_def long_max_def)
    next
      case False
      with n Cons have "\<not> isdigit c" by (simp add: leading_number_def)
      with False show ?thesis unfolding atoi_def strtol_def Cons
        by (simp add: int_of_long_def long_max_def)
    qed
  qed
qed

lemma atoi_zero: "atoi ''0'' = 0"
  by (simp add: atoi_def strtol_def int_of_long_def long_max_def isspace_def isdigit_def
      digit_value_def)

text \<open>Values that do not fit a \<open>long\<close> or an \<open>int\<close>, and digits followed by other text.\<close>

lemma atoi_examples:
  "atoi ''4294967299'' = 3" "atoi ''4294967296x'' = 0" "atoi ''-4294967295'' = 1"
  "atoi ''99999999999999999999'' = - 1" "atoi ''-99999999999999999999'' = 0"
  "atoi '' +42abc'' = 42" "atoi ''-7'' = - 7"
  by (simp_all add: atoi_def strtol_def int_of_long_def long_max_def isspace_def isdigit_def
      digit_value_def)

lemma parse_arguments_same_level:
  assumes "atoi s = atoi s'"
  shows "parse_arguments b (pre @ (CHR ''l'', s) # post) st =
         parse_arguments b (pre @ (CHR ''l'', s') # post) st"
proof -
  have "switch_c b st1 (CHR ''l'') s = switch_c b st1 (CHR ''l'') s'" for st1
    by (simp add: switch_c_def assms)
  then have eq: "parse_arguments b ((CHR ''l'', s) # post) st1 =
      parse_arguments b ((CHR ''l'', s') # post) st1" for st1
    by simp
  show ?thesis by (simp only: parse_arguments_append eq)
qed

text \<open>
  Claim C9, as the code has it. When the argument \<open>s\<close> of \<open>-l\<close> does not go on,
  after white space and an optional sign, with a decimal digit, \<open>atoi\<close> returns 0.
  That value passes the test of line 149, so \<open>case 'l'\<close> emits no warning and calls
  the log-level setters with level 0, and the whole run is the run of the command
  line with \<open>-l 0\<close> in that place.
\<close>

theorem non_numeric_loglevel:
  assumes "\<not> leading_number s"
  shows "atoi s = 0
     \<and> switch_c b st (CHR ''l'') s =
         ([Set_log_level (context' st) 0]
          @ (if enable_decode b then [Srd_log_loglevel_set 0] else []), Parsed st)
     \<and> main b e (pre @ (CHR ''l'', s) # post) positional =
         main b e (pre @ (CHR ''l'', ''0'') # post) positional"
proof -
  from assms have z: "atoi s = 0" by (rule atoi_no_number)
  have sw: "switch_c b st (CHR ''l'') s =
      ([Set_log_level (context' st) 0]
       @ (if enable_decode b then [Srd_log_loglevel_set 0] else []), Parsed st)"
    by (simp add: switch_c_def case_l_def z)
  have "atoi s = atoi ''0''" by (simp add: z atoi_zero)
  then have "parse_arguments b (pre @ (CHR ''l'', s) # post) initial_locals =
      parse_arguments b (pre @ (CHR ''l'', ''0'') # post) initial_locals"
    by (rule parse_arguments_same_level)
  then have "main b e (pre @ (CHR ''l'', s) # post) positional =
      main b e (pre @ (CHR ''l'', ''0'') # post) positional"
    by (simp add: main_after_loop)
  with z sw show ?thesis by simp
qed

text \<open>\<open>-l debug\<close>.\<close>

theorem non_numeric_loglevel_witness:
  "atoi ''debug'' = 0
   \<and> switch_c desktop_build initial_locals (CHR ''l'') ''debug'' =
       ([Set_log_level Null_context 0, Srd_log_loglevel_set 0], Parsed initial_locals)
   \<and> main desktop_build calm_env [(CHR ''l'', ''debug'')] [] =
       main desktop_build calm_env [(CHR ''l'', ''0'')] []"
proof -
  have n: "\<not> leading_number ''debug''"
    by (simp add: leading_number_def isspace_def isdigit_def)
  from non_numeric_loglevel [OF n, of desktop_build initial_locals calm_env "[]" "[]" "[]"]
  show ?thesis by (simp add: desktop_build_def initial_locals_def)
qed

text \<open>
  The string \<open>9x\<close> is not a number, and \<open>atoi\<close> converts it to 9, the value of its
  digits: the run has the warning of line 150 and no call of a log-level setter.
\<close>

theorem digit_prefix_loglevel_counterexample:
  "\<not> decimal_number ''9x'' \<and> atoi ''9x'' = 9
   \<and> main desktop_build calm_env [(CHR ''l'', ''9x'')] [] =
     ([Application_ctor, invalid_log_level, Global_settings_ctor, Set_defaults_where_needed,
       Logging_init, Context_create, Session_sr_context_assign, Srd_init, Srd_decoder_load_all,
       Device_manager_ctor Context_handle [] True, Main_window_ctor, Show, Restore_sessions,
       Add_default_session, Prepare_signals, Signal_handler_ctor, Connect_int_received,
       Connect_term_received, Exec, Srd_exit],
      Returned 0)"
  by (simp add: model_defs invalid_log_level_def decimal_number_def)

section \<open>The crash-dump handler\<close>

text \<open>
  Claim C4, as the code has it. The claim reads: the handler restores the default
  handler of the signal that triggered it, then writes the stack trace to the
  resolved path in the temporary directory, then raises the signal that triggered
  it again. The first two steps are as claimed. The third is \<open>::raise(SIGABRT)\<close>
  whatever the trigger was: the handler raises the abort signal, which is the
  triggering signal only when the trigger was the abort signal.
\<close>

theorem signal_handler_steps:
  "signal_handler (stacktrace_filename e) signum =
     [Signal_call signum SIG_DFL,
      Safe_dump_to (temp_path e @ ''/pv_stacktrace.dmp''),
      Raise_call SIGABRT]
   \<and> (last (signal_handler (stacktrace_filename e) signum) = Raise_call signum) = (signum = SIGABRT)"
  by (cases signum) (simp_all add: signal_handler_def stacktrace_filename_def)

text \<open>On a segmentation fault the signal raised at the end is not the segmentation fault.\<close>

theorem signal_handler_segv_counterexample:
  "signal_handler (stacktrace_filename calm_env) SIGSEGV \<noteq>
     [Signal_call SIGSEGV SIG_DFL,
      Safe_dump_to ''/tmp/pv_stacktrace.dmp'',
      Raise_call SIGSEGV]"
  by (simp add: signal_handler_def)

end
